theory Spec2Isabelle
  imports Main
begin

section \<open>Python strings\<close>

text \<open>
  A Python \<open>str\<close> is a sequence of code points. It is modelled as a \<open>string\<close> whose
  characters stand for the code points U+0000 to U+00FF, one \<open>char\<close> per code point, so
  that \<open>length\<close> is Python's \<open>len\<close>. The character classes below are the ones of
  Python's \<open>str\<close> methods and of \<open>re\<close> on that range.
\<close>

definition is_ascii_digit :: "char \<Rightarrow> bool" where
  \<comment> \<open>the class \<open>\d\<close> of \<open>re\<close> (category Nd), which on this range is \<open>0\<close> to \<open>9\<close>\<close>
  "is_ascii_digit c = (48 \<le> (of_char c :: nat) \<and> (of_char c :: nat) \<le> 57)"

definition isdigit_char :: "char \<Rightarrow> bool" where
  \<comment> \<open>\<open>str.isdigit\<close> on one character: \<open>0\<close> to \<open>9\<close> and the superscript digits
      U+00B2, U+00B3 and U+00B9\<close>
  "isdigit_char c = (is_ascii_digit c \<or> c = CHR 0xB2 \<or> c = CHR 0xB3 \<or> c = CHR 0xB9)"

definition isdigit :: "string \<Rightarrow> bool" where
  \<comment> \<open>\<open>str.isdigit\<close>: false on the empty string\<close>
  "isdigit s = (s \<noteq> [] \<and> list_all isdigit_char s)"

definition isspace_char :: "char \<Rightarrow> bool" where
  \<comment> \<open>the characters \<open>str.strip()\<close> removes: U+0009 to U+000D, U+001C to U+0020,
      U+0085 and U+00A0\<close>
  "isspace_char c =
     (let n = (of_char c :: nat)
      in (9 \<le> n \<and> n \<le> 13) \<or> (28 \<le> n \<and> n \<le> 32) \<or> n = 133 \<or> n = 160)"

definition strip_with :: "(char \<Rightarrow> bool) \<Rightarrow> string \<Rightarrow> string" where
  "strip_with p s = rev (dropWhile p (rev (dropWhile p s)))"

definition strip :: "string \<Rightarrow> string" where
  \<comment> \<open>\<open>s.strip()\<close>\<close>
  "strip s = strip_with isspace_char s"

definition digit_value :: "char \<Rightarrow> nat" where
  "digit_value c = of_char c - 48"

definition digit_char :: "nat \<Rightarrow> char" where
  \<comment> \<open>the character of a digit below ten\<close>
  "digit_char k = ''0123456789'' ! k"

fun dec :: "nat \<Rightarrow> string" where
  \<comment> \<open>the decimal numeral of a number, as \<open>%d\<close> prints it\<close>
  "dec n = (if n < 10 then [digit_char n] else dec (n div 10) @ [digit_char (n mod 10)])"

declare dec.simps [simp del]

definition zfill :: "nat \<Rightarrow> string \<Rightarrow> string" where
  \<comment> \<open>left padding with zeros to a width, as \<open>%02d\<close> and \<open>%04d\<close> do\<close>
  "zfill w s = replicate (w - length s) (CHR ''0'') @ s"

section \<open>Errors\<close>

text \<open>
  Every error of \<open>classes.py\<close> is a \<open>ValueError\<close> with a message. The four kinds of
  error are the four messages.
\<close>

datatype error = ValueError string

definition InvalidName :: error where
  "InvalidName = ValueError ''Contact name is mandatory and cannot be empty.''"

definition InvalidPhone :: error where
  "InvalidPhone = ValueError ''Phone number must contain exactly 10 digits.''"

definition UnableToParse :: error where
  "UnableToParse = ValueError ''Unable to parse date format''"

definition InvalidBirthday :: error where
  "InvalidBirthday = ValueError
     ''Invalid birthday format. Use YYYY-MM-DD, YYYY.MM.DD, DD.MM.YYYY, or DD-MM-YYYY''"

definition PhoneNotFound :: "string \<Rightarrow> error" where
  "PhoneNotFound old_phone = ValueError (''Phone number '' @ old_phone @ '' not found.'')"

section \<open>The \<open>datetime\<close> of the standard library\<close>

text \<open>
  \<open>classes.py\<close> uses \<open>datetime.strptime\<close>, \<open>strftime\<close>, \<open>replace\<close>,
  \<open>weekday\<close>, comparison and subtraction. They are modelled after the proleptic Gregorian
  calendar of the \<open>datetime\<close> module. Where Python raises \<open>ValueError\<close> the model
  returns \<open>None\<close>.
\<close>

record datetime =
  year :: nat
  month :: nat
  day :: nat
  hour :: nat
  minute :: nat
  second :: nat
  microsecond :: nat

definition is_leap :: "nat \<Rightarrow> bool" where
  "is_leap y = (y mod 4 = 0 \<and> (y mod 100 \<noteq> 0 \<or> y mod 400 = 0))"

definition days_in_month :: "nat \<Rightarrow> nat \<Rightarrow> nat" where
  "days_in_month y m =
     (if m = 2 then (if is_leap y then 29 else 28)
      else if m = 4 \<or> m = 6 \<or> m = 9 \<or> m = 11 then 30 else 31)"

definition days_before_year :: "nat \<Rightarrow> nat" where
  "days_before_year y = (y - 1) * 365 + (y - 1) div 4 - (y - 1) div 100 + (y - 1) div 400"

definition days_before_month :: "nat \<Rightarrow> nat \<Rightarrow> nat" where
  \<comment> \<open>the table of the days before each month of a common year, and the leap day\<close>
  "days_before_month y m =
     [0, 31, 59, 90, 120, 151, 181, 212, 243, 273, 304, 334] ! (m - 1)
       + (if 2 < m \<and> is_leap y then 1 else 0)"

definition check_date_fields :: "nat \<Rightarrow> nat \<Rightarrow> nat \<Rightarrow> bool" where
  \<comment> \<open>the check of the \<open>datetime\<close> constructor, with MINYEAR 1 and MAXYEAR 9999\<close>
  "check_date_fields y m d =
     (1 \<le> y \<and> y \<le> 9999 \<and> 1 \<le> m \<and> m \<le> 12 \<and> 1 \<le> d \<and> d \<le> days_in_month y m)"

definition make_date :: "nat \<Rightarrow> nat \<Rightarrow> nat \<Rightarrow> datetime option" where
  \<comment> \<open>\<open>datetime(y, m, d)\<close>: midnight of that day\<close>
  "make_date y m d =
     (if check_date_fields y m d
      then Some \<lparr>year = y, month = m, day = d, hour = 0, minute = 0, second = 0,
                 microsecond = 0\<rparr>
      else None)"

definition replace_year :: "datetime \<Rightarrow> nat \<Rightarrow> datetime option" where
  \<comment> \<open>\<open>dt.replace(year=y)\<close>\<close>
  "replace_year dt y =
     (if check_date_fields y (month dt) (day dt) then Some (dt\<lparr>year := y\<rparr>) else None)"

definition replace_day :: "datetime \<Rightarrow> nat \<Rightarrow> datetime option" where
  \<comment> \<open>\<open>dt.replace(day=d)\<close>\<close>
  "replace_day dt d =
     (if check_date_fields (year dt) (month dt) d then Some (dt\<lparr>day := d\<rparr>) else None)"

definition toordinal :: "datetime \<Rightarrow> nat" where
  "toordinal dt = days_before_year (year dt) + days_before_month (year dt) (month dt) + day dt"

definition weekday :: "datetime \<Rightarrow> nat" where
  \<comment> \<open>Monday is 0, Sunday is 6\<close>
  "weekday dt = (toordinal dt + 6) mod 7"

definition time_of_day :: "datetime \<Rightarrow> nat" where
  \<comment> \<open>microseconds since midnight\<close>
  "time_of_day dt =
     ((hour dt * 60 + minute dt) * 60 + second dt) * 1000000 + microsecond dt"

definition check_time_fields :: "datetime \<Rightarrow> bool" where
  "check_time_fields dt =
     (hour dt < 24 \<and> minute dt < 60 \<and> second dt < 60 \<and> microsecond dt < 1000000)"

fun tuple_less :: "nat list \<Rightarrow> nat list \<Rightarrow> bool" where
  \<comment> \<open>Python's order on tuples of numbers\<close>
  "tuple_less (x # xs) (y # ys) = (x < y \<or> (x = y \<and> tuple_less xs ys))"
| "tuple_less [] (y # ys) = True"
| "tuple_less xs [] = False"

definition dt_less :: "datetime \<Rightarrow> datetime \<Rightarrow> bool" where
  \<comment> \<open>\<open>a < b\<close>: the fields compared in order\<close>
  "dt_less a b =
     tuple_less [year a, month a, day a, hour a, minute a, second a, microsecond a]
                [year b, month b, day b, hour b, minute b, second b, microsecond b]"

definition sub_days :: "datetime \<Rightarrow> datetime \<Rightarrow> int" where
  \<comment> \<open>\<open>(a - b).days\<close>: a \<open>timedelta\<close> is normalised, its days are the floor\<close>
  "sub_days a b =
     ((int (toordinal a) - int (toordinal b)) * 86400000000
        + (int (time_of_day a) - int (time_of_day b))) div 86400000000"

subsection \<open>\<open>strptime\<close> and \<open>strftime\<close>\<close>

text \<open>
  \<open>strptime\<close> turns the format into a regular expression, matches it at the start of
  the text and raises \<open>ValueError\<close> when it does not match or when text remains. The
  three formats of \<open>classes.py\<close> are three directives with a \<open>-\<close> between them:
  \<^item> \<open>%Y\<close> is \<open>\d\d\d\d\<close>,
  \<^item> \<open>%m\<close> is \<open>1[0-2]|0[1-9]|[1-9]\<close>,
  \<^item> \<open>%d\<close> is \<open>3[0-1]|[1-2]\d|0[1-9]|[1-9]| [1-9]\<close>.
  No directive matches a \<open>-\<close>, so the text matches exactly when it has two \<open>-\<close>, and
  the three parts around them match their directives. Each \<open>field\<close> function gives the
  number \<open>int\<close> reads from the part, or \<open>None\<close> when the part does not match.
\<close>

datatype format = Ymd | dmY | mdY
  \<comment> \<open>\<open>"%Y-%m-%d"\<close>, \<open>"%d-%m-%Y"\<close> and \<open>"%m-%d-%Y"\<close>\<close>

definition is_19 :: "char \<Rightarrow> bool" where
  \<comment> \<open>the class \<open>[1-9]\<close>\<close>
  "is_19 c = (49 \<le> (of_char c :: nat) \<and> (of_char c :: nat) \<le> 57)"

fun field_Y :: "string \<Rightarrow> nat option" where
  "field_Y [a, b, c, d] =
     (if is_ascii_digit a \<and> is_ascii_digit b \<and> is_ascii_digit c \<and> is_ascii_digit d
      then Some (1000 * digit_value a + 100 * digit_value b + 10 * digit_value c
                 + digit_value d)
      else None)"
| "field_Y s = None"

fun field_m :: "string \<Rightarrow> nat option" where
  "field_m [a, b] =
     (if a = CHR ''1'' \<and> (b = CHR ''0'' \<or> b = CHR ''1'' \<or> b = CHR ''2'')
      then Some (10 + digit_value b)
      else if a = CHR ''0'' \<and> is_19 b then Some (digit_value b)
      else None)"
| "field_m [a] = (if is_19 a then Some (digit_value a) else None)"
| "field_m s = None"

fun field_d :: "string \<Rightarrow> nat option" where
  "field_d [a, b] =
     (if a = CHR ''3'' \<and> (b = CHR ''0'' \<or> b = CHR ''1'') then Some (30 + digit_value b)
      else if (a = CHR ''1'' \<or> a = CHR ''2'') \<and> is_ascii_digit b
      then Some (10 * digit_value a + digit_value b)
      else if a = CHR ''0'' \<and> is_19 b then Some (digit_value b)
      else if a = CHR '' '' \<and> is_19 b then Some (digit_value b)
      else None)"
| "field_d [a] = (if is_19 a then Some (digit_value a) else None)"
| "field_d s = None"

definition not_dash :: "char \<Rightarrow> bool" where
  "not_dash c = (c \<noteq> CHR ''-'')"

definition three_parts :: "string \<Rightarrow> (string \<times> string \<times> string) option" where
  \<comment> \<open>the parts of a text with exactly two \<open>-\<close>\<close>
  "three_parts s =
     (case dropWhile not_dash s of
        [] \<Rightarrow> None
      | _ # s2 \<Rightarrow>
          (case dropWhile not_dash s2 of
             [] \<Rightarrow> None
           | _ # s3 \<Rightarrow>
               if list_all not_dash s3
               then Some (takeWhile not_dash s, takeWhile not_dash s2, s3)
               else None))"

definition date_of_fields :: "nat option \<Rightarrow> nat option \<Rightarrow> nat option \<Rightarrow> datetime option" where
  "date_of_fields y m d =
     (case (y, m, d) of (Some y', Some m', Some d') \<Rightarrow> make_date y' m' d' | _ \<Rightarrow> None)"

definition strptime :: "string \<Rightarrow> format \<Rightarrow> datetime option" where
  "strptime s fmt =
     (case three_parts s of
        None \<Rightarrow> None
      | Some (p1, p2, p3) \<Rightarrow>
          (case fmt of
             Ymd \<Rightarrow> date_of_fields (field_Y p1) (field_m p2) (field_d p3)
           | dmY \<Rightarrow> date_of_fields (field_Y p3) (field_m p2) (field_d p1)
           | mdY \<Rightarrow> date_of_fields (field_Y p3) (field_m p1) (field_d p2)))"

text \<open>
  \<open>strftime\<close> prints \<open>%m\<close> and \<open>%d\<close> with two digits. How \<open>%Y\<close> prints a year
  below 1000 depends on the platform: four digits with leading zeros, or the numeral alone
  (the C library of Linux). The flag \<open>pad\<close> says which, and every function that prints a
  year takes it.
\<close>

definition year_str :: "bool \<Rightarrow> nat \<Rightarrow> string" where
  "year_str pad y = (if pad then zfill 4 (dec y) else dec y)"

definition strftime_Ymd :: "bool \<Rightarrow> datetime \<Rightarrow> string" where
  \<comment> \<open>\<open>dt.strftime("%Y-%m-%d")\<close>\<close>
  "strftime_Ymd pad dt =
     year_str pad (year dt) @ ''-'' @ zfill 2 (dec (month dt)) @ ''-'' @ zfill 2 (dec (day dt))"

definition strftime_dmY :: "bool \<Rightarrow> datetime \<Rightarrow> string" where
  \<comment> \<open>\<open>dt.strftime("%d.%m.%Y")\<close>\<close>
  "strftime_dmY pad dt =
     zfill 2 (dec (day dt)) @ ''.'' @ zfill 2 (dec (month dt)) @ ''.'' @ year_str pad (year dt)"

section \<open>The fields: \<open>Name\<close>, \<open>Phone\<close>, \<open>Birthday\<close>\<close>

text \<open>
  A field object holds one string, its \<open>value\<close>. Each constructor returns the value it
  stores, or the error it raises.
\<close>

definition Name :: "string \<Rightarrow> error + string" where
  "Name v = (let name = strip v in if name = [] then Inl InvalidName else Inr name)"

definition Phone :: "string \<Rightarrow> error + string" where
  "Phone v =
     (let phone_str = strip v
      in if \<not> (isdigit phone_str \<and> length phone_str = 10) then Inl InvalidPhone
         else Inr phone_str)"

text \<open>
  Python's strings hold every code point, and \<open>str.strip\<close> and \<open>str.isdigit\<close> have
  their classes on all of them. \<open>Phone_of\<close> is the constructor of \<open>Phone\<close> on strings
  over any set of code points, with the two classes as parameters: the characters that
  \<open>strip()\<close> removes and the characters that \<open>isdigit\<close> accepts.
\<close>

definition Phone_of :: "('c \<Rightarrow> bool) \<Rightarrow> ('c \<Rightarrow> bool) \<Rightarrow> 'c list \<Rightarrow> error + 'c list" where
  "Phone_of isspace_c isdigit_c v =
     (let phone_str = rev (dropWhile isspace_c (rev (dropWhile isspace_c v)))
      in if \<not> ((phone_str \<noteq> [] \<and> list_all isdigit_c phone_str) \<and> length phone_str = 10)
         then Inl InvalidPhone
         else Inr phone_str)"

definition is_delimiter :: "char \<Rightarrow> bool" where
  \<comment> \<open>the class \<open>[ \-/\.\\,\t\n\(\)\[\]\{\}]\<close>\<close>
  "is_delimiter c = (c \<in> set '' -/.\<newline>,()[]{}'' \<or> c = CHR 0x5C \<or> c = CHR 0x09)"

function sub_delimiters :: "string \<Rightarrow> string" where
  \<comment> \<open>\<open>re.sub\<close> of the class with \<open>+\<close>: every maximal run of delimiters becomes one
      \<open>-\<close>\<close>
  "sub_delimiters [] = []"
| "sub_delimiters (c # cs) =
     (if is_delimiter c then CHR ''-'' # sub_delimiters (dropWhile is_delimiter cs)
      else c # sub_delimiters cs)"
  by pat_completeness auto
termination
  by (relation "measure length") (auto simp: le_imp_less_Suc length_dropWhile_le)

definition formats_to_try :: "format list" where
  "formats_to_try = [Ymd, dmY, mdY]"

fun try_formats :: "bool \<Rightarrow> string \<Rightarrow> format list \<Rightarrow> error + string" where
  \<comment> \<open>the loop of \<open>_standardize_date_format\<close>: the first format that parses returns\<close>
  "try_formats pad standardized [] = Inl UnableToParse"
| "try_formats pad standardized (fmt # fmts) =
     (case strptime standardized fmt of
        Some parsed_date \<Rightarrow> Inr (strftime_Ymd pad parsed_date)
      | None \<Rightarrow> try_formats pad standardized fmts)"

definition standardize_date_format :: "bool \<Rightarrow> string \<Rightarrow> error + string" where
  "standardize_date_format pad date_string =
     (let standardized = strip_with (\<lambda>c. c = CHR ''-'') (sub_delimiters date_string)
      in try_formats pad standardized formats_to_try)"

definition Birthday :: "bool \<Rightarrow> string \<Rightarrow> error + string" where
  \<comment> \<open>the error of \<open>_standardize_date_format\<close> is raised outside the \<open>try\<close> and
      propagates as it is\<close>
  "Birthday pad v =
     (case standardize_date_format pad (strip v) of
        Inl e \<Rightarrow> Inl e
      | Inr birthday_str \<Rightarrow>
          (case strptime birthday_str Ymd of
             Some _ \<Rightarrow> Inr birthday_str
           | None \<Rightarrow> Inl InvalidBirthday))"

definition display_format :: "bool \<Rightarrow> string \<Rightarrow> string" where
  \<comment> \<open>\<open>Birthday.display_format\<close>, on the stored value\<close>
  "display_format pad v =
     (case strptime v Ymd of Some date_obj \<Rightarrow> strftime_dmY pad date_obj | None \<Rightarrow> v)"

section \<open>\<open>Record\<close>: one contact\<close>

text \<open>
  A record holds the value of its name, the values of its phones in the order they were
  added, and the value of its birthday when it has one. A method that changes the record
  returns what it returns or raises, and the record after the call.
\<close>

record Record =
  name :: string
  phones :: "string list"
  birthday :: "string option"

definition Record_init :: "string \<Rightarrow> error + Record" where
  "Record_init n =
     (case Name n of
        Inl e \<Rightarrow> Inl e
      | Inr v \<Rightarrow> Inr \<lparr>name = v, phones = [], birthday = None\<rparr>)"

definition add_phone :: "string \<Rightarrow> Record \<Rightarrow> (error + unit) \<times> Record" where
  "add_phone phone r =
     (case Phone phone of
        Inl e \<Rightarrow> (Inl e, r)
      | Inr v \<Rightarrow> (Inr (), r\<lparr>phones := phones r @ [v]\<rparr>))"

definition add_birthday :: "bool \<Rightarrow> string \<Rightarrow> Record \<Rightarrow> (error + unit) \<times> Record" where
  \<comment> \<open>the assignment to \<open>self.birthday\<close> runs only when \<open>Birthday(birthday)\<close> has
      returned\<close>
  "add_birthday pad b r =
     (case Birthday pad b of
        Inl e \<Rightarrow> (Inl e, r)
      | Inr v \<Rightarrow> (Inr (), r\<lparr>birthday := Some v\<rparr>))"

fun find_index_of :: "string \<Rightarrow> string list \<Rightarrow> nat option" where
  \<comment> \<open>the position of the first phone with that value\<close>
  "find_index_of phone [] = None"
| "find_index_of phone (p # ps) =
     (if p = phone then Some 0 else map_option Suc (find_index_of phone ps))"

definition find_phone :: "string \<Rightarrow> Record \<Rightarrow> nat option" where
  \<comment> \<open>\<open>find_phone\<close> returns the phone object itself; the model returns its position
      in \<open>phones\<close>\<close>
  "find_phone phone r = find_index_of phone (phones r)"

definition edit_phone :: "string \<Rightarrow> string \<Rightarrow> Record \<Rightarrow> (error + unit) \<times> Record" where
  \<comment> \<open>\<open>phone_to_edit.value = new_phone\<close> writes the new string into the object found\<close>
  "edit_phone old_phone new_phone r =
     (case find_phone old_phone r of
        Some i \<Rightarrow> (Inr (), r\<lparr>phones := (phones r)[i := new_phone]\<rparr>)
      | None \<Rightarrow> (Inl (PhoneNotFound old_phone), r))"

definition remove_phone :: "string \<Rightarrow> Record \<Rightarrow> Record" where
  "remove_phone phone r = r\<lparr>phones := filter (\<lambda>p. p \<noteq> phone) (phones r)\<rparr>"

section \<open>\<open>AddressBook\<close>\<close>

text \<open>
  The book is a dictionary from names to records; \<open>items()\<close> lists it in insertion
  order, and the book is modelled as that list.
\<close>

type_synonym AddressBook = "(string \<times> Record) list"

record entry =
  entry_name :: string
  entry_birthday :: string
  days_until :: int

definition occurrence :: "datetime \<Rightarrow> string \<Rightarrow> datetime option" where
  \<comment> \<open>the statements of the \<open>try\<close> block before the weekend adjustment: the
      birthday in the year of \<open>today\<close>, or in the next year when that is before
      \<open>today\<close>; \<open>None\<close> is a \<open>ValueError\<close> raised by \<open>strptime\<close> or
      \<open>replace\<close>\<close>
  "occurrence today v =
     (case strptime v Ymd of
        None \<Rightarrow> None
      | Some parsed \<Rightarrow>
          (case replace_year parsed (year today) of
             None \<Rightarrow> None
           | Some next_birthday \<Rightarrow>
               if dt_less next_birthday today
               then replace_year next_birthday (year today + 1)
               else Some next_birthday))"

definition weekend_adjust :: "datetime \<Rightarrow> datetime option" where
  \<comment> \<open>\<open>replace(day=next_birthday.day + days_to_add)\<close> on a Saturday or Sunday\<close>
  "weekend_adjust next_birthday =
     (if weekday next_birthday = 5 \<or> weekday next_birthday = 6
      then (let days_to_add = 7 - weekday next_birthday
            in replace_day next_birthday (day next_birthday + days_to_add))
      else Some next_birthday)"

definition next_birthday_of :: "datetime \<Rightarrow> string \<Rightarrow> datetime option" where
  "next_birthday_of today v =
     (case occurrence today v of
        None \<Rightarrow> None
      | Some next_birthday \<Rightarrow> weekend_adjust next_birthday)"

definition upcoming_entry :: "bool \<Rightarrow> datetime \<Rightarrow> string \<times> Record \<Rightarrow> entry option" where
  \<comment> \<open>one turn of the loop: the entry appended, if any; \<open>except ValueError: continue\<close>
      appends none\<close>
  "upcoming_entry pad today item =
     (case birthday (snd item) of
        None \<Rightarrow> None
      | Some v \<Rightarrow>
          (case next_birthday_of today v of
             None \<Rightarrow> None
           | Some next_birthday \<Rightarrow>
               (let delta = sub_days next_birthday today
                in if 0 \<le> delta \<and> delta \<le> 7
                   then Some \<lparr>entry_name = fst item, entry_birthday = display_format pad v,
                              days_until = delta\<rparr>
                   else None)))"

fun upcoming_loop :: "bool \<Rightarrow> datetime \<Rightarrow> AddressBook \<Rightarrow> entry list \<Rightarrow> entry list" where
  "upcoming_loop pad today [] upcoming_birthdays = upcoming_birthdays"
| "upcoming_loop pad today (item # items) upcoming_birthdays =
     upcoming_loop pad today items
       (case upcoming_entry pad today item of
          Some e \<Rightarrow> upcoming_birthdays @ [e]
        | None \<Rightarrow> upcoming_birthdays)"

definition get_upcoming_birthdays :: "bool \<Rightarrow> datetime \<Rightarrow> AddressBook \<Rightarrow> entry list" where
  \<comment> \<open>the method takes the book only; \<open>today\<close> is what \<open>datetime.today()\<close> returns when
      the method runs, the date and the time of day of the system clock\<close>
  "get_upcoming_birthdays pad today book = upcoming_loop pad today book []"

section \<open>The canonical form\<close>

fun matches_YYYY_MM_DD :: "string \<Rightarrow> bool" where
  \<comment> \<open>four digits, \<open>-\<close>, two digits, \<open>-\<close>, two digits\<close>
  "matches_YYYY_MM_DD [y1, y2, y3, y4, s1, m1, m2, s2, d1, d2] =
     (is_ascii_digit y1 \<and> is_ascii_digit y2 \<and> is_ascii_digit y3 \<and> is_ascii_digit y4
      \<and> s1 = CHR ''-'' \<and> is_ascii_digit m1 \<and> is_ascii_digit m2
      \<and> s2 = CHR ''-'' \<and> is_ascii_digit d1 \<and> is_ascii_digit d2)"
| "matches_YYYY_MM_DD s = False"

section \<open>Digits and decimal numerals\<close>

lemma lt10_cases:
  "k < 10 \<Longrightarrow> k = 0 \<or> k = 1 \<or> k = 2 \<or> k = 3 \<or> k = 4 \<or> k = 5 \<or> k = 6 \<or> k = 7 \<or> k = 8 \<or> k = (9::nat)"
  by arith

lemma digit_value_digit_char: "k < 10 \<Longrightarrow> digit_value (digit_char k) = k"
  by (drule lt10_cases) (auto simp: digit_value_def digit_char_def)

lemma is_ascii_digit_digit_char: "k < 10 \<Longrightarrow> is_ascii_digit (digit_char k)"
  by (drule lt10_cases) (auto simp: is_ascii_digit_def digit_char_def)

lemma is_19_digit_char: "0 < k \<Longrightarrow> k < 10 \<Longrightarrow> is_19 (digit_char k)"
  by (drule lt10_cases) (auto simp: is_19_def digit_char_def)

lemma not_dash_digit: "is_ascii_digit c \<Longrightarrow> not_dash c"
  by (auto simp: is_ascii_digit_def not_dash_def)

lemma dec_1: "n < 10 \<Longrightarrow> dec n = [digit_char n]"
  by (simp add: dec.simps)

lemma dec_2: "10 \<le> n \<Longrightarrow> n < 100 \<Longrightarrow> dec n = [digit_char (n div 10), digit_char (n mod 10)]"
  by (subst dec.simps) (simp add: dec_1)

lemma dec_3:
  "100 \<le> n \<Longrightarrow> n < 1000 \<Longrightarrow>
   dec n = [digit_char (n div 100), digit_char (n div 10 mod 10), digit_char (n mod 10)]"
  by (subst dec.simps) (simp add: dec_2 div_mult2_eq[symmetric])

lemma dec_4:
  "1000 \<le> n \<Longrightarrow> n < 10000 \<Longrightarrow>
   dec n = [digit_char (n div 1000), digit_char (n div 100 mod 10), digit_char (n div 10 mod 10),
            digit_char (n mod 10)]"
  by (subst dec.simps) (simp add: dec_3 div_mult2_eq[symmetric])

lemma zfill_2_dec:
  "n < 100 \<Longrightarrow> zfill 2 (dec n) = [digit_char (n div 10), digit_char (n mod 10)]"
  by (cases "n < 10") (simp_all add: zfill_def dec_1 dec_2 digit_char_def)

lemma dec_digits: "list_all is_ascii_digit (dec n)"
proof (induction n rule: dec.induct)
  case (1 n)
  show ?case
  proof (cases "n < 10")
    case True
    then show ?thesis by (simp add: dec_1 is_ascii_digit_digit_char)
  next
    case False
    then have "list_all is_ascii_digit (dec (n div 10))" using 1 by simp
    moreover have "is_ascii_digit (digit_char (n mod 10))"
      by (simp add: is_ascii_digit_digit_char)
    ultimately show ?thesis using False by (subst dec.simps) simp
  qed
qed

lemma year_str_digits: "list_all is_ascii_digit (year_str pad y)"
proof -
  have "is_ascii_digit (CHR ''0'')" by (simp add: is_ascii_digit_def)
  then show ?thesis
    using dec_digits [of y] by (auto simp: year_str_def zfill_def list_all_iff)
qed

lemma year_str_4:
  assumes "y < 10000" and "length (year_str pad y) = 4"
  shows "year_str pad y =
           [digit_char (y div 1000), digit_char (y div 100 mod 10), digit_char (y div 10 mod 10),
            digit_char (y mod 10)]"
proof -
  consider "y < 10" | "10 \<le> y" "y < 100" | "100 \<le> y" "y < 1000" | "1000 \<le> y"
    by linarith
  then show ?thesis
  proof cases
    case 1
    then show ?thesis using assms
      by (auto simp: year_str_def zfill_def dec_1 digit_char_def numeral_3_eq_3
          split: if_splits)
  next
    case 2
    then show ?thesis using assms
      by (auto simp: year_str_def zfill_def dec_2 digit_char_def numeral_2_eq_2
          split: if_splits)
  next
    case 3
    then show ?thesis using assms
      by (auto simp: year_str_def zfill_def dec_3 digit_char_def split: if_splits)
  next
    case 4
    then show ?thesis using assms
      by (auto simp: year_str_def zfill_def dec_4 split: if_splits)
  qed
qed

section \<open>Printing a date and reading it back\<close>

lemma three_parts_append:
  assumes "list_all not_dash a" and "list_all not_dash b" and "list_all not_dash c"
  shows "three_parts (a @ ''-'' @ b @ ''-'' @ c) = Some (a, b, c)"
proof -
  have a: "\<forall>x\<in>set a. not_dash x" and b: "\<forall>x\<in>set b. not_dash x"
    using assms by (simp_all add: list_all_iff)
  have nd: "\<not> not_dash (CHR ''-'')" by (simp add: not_dash_def)
  have 1: "dropWhile not_dash (a @ ''-'' @ b @ ''-'' @ c) = ''-'' @ b @ ''-'' @ c"
    using a nd by (simp add: dropWhile_append2)
  have 2: "takeWhile not_dash (a @ ''-'' @ b @ ''-'' @ c) = a"
    using a nd by (simp add: takeWhile_append2)
  have 3: "dropWhile not_dash (b @ ''-'' @ c) = ''-'' @ c"
    using b nd by (simp add: dropWhile_append2)
  have 4: "takeWhile not_dash (b @ ''-'' @ c) = b"
    using b nd by (simp add: takeWhile_append2)
  show ?thesis
    unfolding three_parts_def 1 using 2 3 4 assms(3) by simp
qed

lemma decimal_4:
  "1000 * (y div 1000) + 100 * (y div 100 mod 10) + 10 * (y div 10 mod 10) + y mod 10 = (y::nat)"
proof -
  have a: "y = 10 * (y div 10) + y mod 10" by simp
  have "y div 10 = 10 * (y div 10 div 10) + y div 10 mod 10" by simp
  then have b: "y div 10 = 10 * (y div 100) + y div 10 mod 10"
    by (simp add: div_mult2_eq [symmetric])
  have "y div 100 = 10 * (y div 100 div 10) + y div 100 mod 10" by simp
  then have c: "y div 100 = 10 * (y div 1000) + y div 100 mod 10"
    by (simp add: div_mult2_eq [symmetric])
  show ?thesis using a b c by linarith
qed

lemma field_Y_digits:
  assumes "y < 10000"
  shows "field_Y [digit_char (y div 1000), digit_char (y div 100 mod 10),
                  digit_char (y div 10 mod 10), digit_char (y mod 10)] = Some y"
proof -
  have "y div 1000 < 10" using assms by simp
  then show ?thesis
    using decimal_4 [of y] by (simp add: is_ascii_digit_digit_char digit_value_digit_char)
qed

lemma field_m_digits:
  assumes "1 \<le> m" and "m \<le> 12"
  shows "field_m [digit_char (m div 10), digit_char (m mod 10)] = Some m"
proof -
  have "m = 1 \<or> m = 2 \<or> m = 3 \<or> m = 4 \<or> m = 5 \<or> m = 6 \<or> m = 7 \<or> m = 8 \<or> m = 9
          \<or> m = 10 \<or> m = 11 \<or> m = 12"
    using assms by arith
  then show ?thesis
    by (elim disjE) (simp_all add: digit_char_def is_19_def digit_value_def)
qed

lemma field_d_tens:
  assumes "k < 10"
  shows "field_d [CHR ''1'', digit_char k] = Some (10 + k)"
    and "field_d [CHR ''2'', digit_char k] = Some (20 + k)"
  using assms
  by (simp_all add: is_ascii_digit_digit_char digit_value_digit_char digit_value_def [of "CHR ''1''"]
      digit_value_def [of "CHR ''2''"])

lemma field_d_digits:
  assumes "1 \<le> d" and "d \<le> 31"
  shows "field_d [digit_char (d div 10), digit_char (d mod 10)] = Some d"
proof -
  consider "d < 10" | "10 \<le> d" "d < 20" | "20 \<le> d" "d < 30" | "d = 30" | "d = 31"
    using assms by linarith
  then show ?thesis
  proof cases
    case 1
    then have "d div 10 = 0" and "d mod 10 = d" and "0 < d" using assms by simp_all
    moreover have "digit_char 0 = CHR ''0''" by (simp add: digit_char_def)
    ultimately show ?thesis using 1
      by (simp add: is_19_digit_char digit_value_digit_char)
  next
    case 2
    then have "d div 10 = 1" and "d mod 10 < 10" and "10 + d mod 10 = d" by arith+
    moreover have "digit_char 1 = CHR ''1''" by (simp add: digit_char_def)
    ultimately show ?thesis using field_d_tens(1) [of "d mod 10"] by simp
  next
    case 3
    then have "d div 10 = 2" and "d mod 10 < 10" and "20 + d mod 10 = d" by arith+
    moreover have "digit_char 2 = CHR ''2''" by (simp add: digit_char_def)
    ultimately show ?thesis using field_d_tens(2) [of "d mod 10"] by simp
  next
    case 4
    then show ?thesis by (simp add: digit_char_def digit_value_def)
  next
    case 5
    then show ?thesis by (simp add: digit_char_def digit_value_def)
  qed
qed


lemma days_in_month_le: "days_in_month y m \<le> 31"
  by (simp add: days_in_month_def)

lemma check_date_fieldsD:
  assumes "check_date_fields y m d"
  shows "1 \<le> y" and "y < 10000" and "1 \<le> m" and "m \<le> 12" and "1 \<le> d" and "d \<le> 31"
    and "m div 10 < 10" and "d div 10 < 10" and "m < 100" and "d < 100"
  using assms days_in_month_le [of y m] by (auto simp: check_date_fields_def)

lemma field_Y_length: "field_Y s = Some y \<Longrightarrow> length s = 4"
  by (cases s rule: field_Y.cases) simp_all

lemma strptime_valid:
  assumes "strptime s fmt = Some d"
  shows "check_date_fields (year d) (month d) (day d)"
    and "hour d = 0" and "minute d = 0" and "second d = 0" and "microsecond d = 0"
  using assms
  by (auto simp: strptime_def date_of_fields_def make_date_def
      split: option.splits format.splits if_splits)

lemma strftime_Ymd_parts:
  assumes "check_date_fields (year d) (month d) (day d)"
  shows "strftime_Ymd pad d =
           year_str pad (year d) @ ''-''
             @ [digit_char (month d div 10), digit_char (month d mod 10)] @ ''-''
             @ [digit_char (day d div 10), digit_char (day d mod 10)]"
proof -
  have "month d < 100" and "day d < 100" using assms by (rule check_date_fieldsD)+
  then show ?thesis by (simp add: strftime_Ymd_def zfill_2_dec)
qed

lemma strftime_dmY_parts:
  assumes "check_date_fields (year d) (month d) (day d)"
  shows "strftime_dmY pad d =
           [digit_char (day d div 10), digit_char (day d mod 10)] @ ''.''
             @ [digit_char (month d div 10), digit_char (month d mod 10)] @ ''.''
             @ year_str pad (year d)"
proof -
  have "month d < 100" and "day d < 100" using assms by (rule check_date_fieldsD)+
  then show ?thesis by (simp add: strftime_dmY_def zfill_2_dec)
qed

lemma three_parts_strftime:
  assumes "check_date_fields (year d) (month d) (day d)"
  shows "three_parts (strftime_Ymd pad d) =
           Some (year_str pad (year d),
                 [digit_char (month d div 10), digit_char (month d mod 10)],
                 [digit_char (day d div 10), digit_char (day d mod 10)])"
proof -
  have "list_all not_dash (year_str pad (year d))"
    using year_str_digits [of pad "year d"] by (auto simp: list_all_iff not_dash_digit)
  moreover have "list_all not_dash [digit_char (month d div 10), digit_char (month d mod 10)]"
    using check_date_fieldsD(7) [OF assms]
    by (simp add: not_dash_digit is_ascii_digit_digit_char)
  moreover have "list_all not_dash [digit_char (day d div 10), digit_char (day d mod 10)]"
    using check_date_fieldsD(8) [OF assms]
    by (simp add: not_dash_digit is_ascii_digit_digit_char)
  ultimately show ?thesis
    unfolding strftime_Ymd_parts [OF assms] by (rule three_parts_append)
qed

lemma strptime_strftime:
  assumes "check_date_fields (year d) (month d) (day d)"
  shows "strptime (strftime_Ymd pad d) Ymd =
           (if length (year_str pad (year d)) = 4 then make_date (year d) (month d) (day d)
            else None)"
proof -
  have m: "field_m [digit_char (month d div 10), digit_char (month d mod 10)] = Some (month d)"
    using check_date_fieldsD(3,4) [OF assms] by (rule field_m_digits)
  have d: "field_d [digit_char (day d div 10), digit_char (day d mod 10)] = Some (day d)"
    using check_date_fieldsD(5,6) [OF assms] by (rule field_d_digits)
  show ?thesis
  proof (cases "length (year_str pad (year d)) = 4")
    case True
    have y: "year d < 10000" using assms by (rule check_date_fieldsD)
    have "field_Y (year_str pad (year d)) = Some (year d)"
      unfolding year_str_4 [OF y True] using y by (rule field_Y_digits)
    then show ?thesis
      using True m d by (simp add: strptime_def three_parts_strftime [OF assms] date_of_fields_def)
  next
    case False
    then have "field_Y (year_str pad (year d)) = None"
      using field_Y_length [of "year_str pad (year d)"] by (cases "field_Y (year_str pad (year d))") auto
    then show ?thesis
      using False by (simp add: strptime_def three_parts_strftime [OF assms] date_of_fields_def)
  qed
qed

lemma try_formats_Inr:
  "try_formats pad t fs = Inr v \<Longrightarrow> \<exists>f d. strptime t f = Some d \<and> v = strftime_Ymd pad d"
  by (induction fs) (auto split: option.splits)

lemma try_formats_Inl: "try_formats pad t fs = Inl e \<Longrightarrow> e = UnableToParse"
  by (induction fs) (auto split: option.splits)

lemma Birthday_Inr:
  assumes "Birthday pad s = Inr v"
  obtains d where "check_date_fields (year d) (month d) (day d)"
    and "v = strftime_Ymd pad d" and "length (year_str pad (year d)) = 4"
proof -
  from assms obtain f d t where p: "strptime t f = Some d" and v: "v = strftime_Ymd pad d"
    and ok: "strptime v Ymd \<noteq> None"
    by (auto simp: Birthday_def standardize_date_format_def Let_def
        split: sum.splits option.splits dest: try_formats_Inr)
  have c: "check_date_fields (year d) (month d) (day d)" using p by (rule strptime_valid)
  have "length (year_str pad (year d)) = 4"
    using ok unfolding v strptime_strftime [OF c] by (simp split: if_splits)
  then show ?thesis using c v that by blast
qed

section \<open>Evaluation on concrete inputs\<close>

lemmas string_defs = strip_def strip_with_def isspace_char_def isdigit_def isdigit_char_def
  is_ascii_digit_def is_19_def digit_value_def digit_char_def not_dash_def is_delimiter_def

lemmas date_defs = make_date_def check_date_fields_def days_in_month_def is_leap_def
  days_before_year_def days_before_month_def toordinal_def weekday_def replace_year_def
  replace_day_def time_of_day_def dt_less_def sub_days_def

lemmas parse_defs = strptime_def three_parts_def date_of_fields_def strftime_Ymd_def
  strftime_dmY_def year_str_def zfill_def dec.simps

lemmas field_defs = Birthday_def standardize_date_format_def formats_to_try_def
  display_format_def

lemmas book_defs = get_upcoming_birthdays_def upcoming_entry_def next_birthday_of_def
  occurrence_def weekend_adjust_def

lemma Birthday_1990_06_15: "Birthday pad ''1990-06-15'' = Inr ''1990-06-15''"
  by (simp add: field_defs string_defs parse_defs date_defs)

lemma Birthday_dots: "Birthday pad ''1990.06.15'' = Inr ''1990-06-15''"
  by (simp add: field_defs string_defs parse_defs date_defs)

lemma Birthday_day_first: "Birthday pad ''15-06-1990'' = Inr ''1990-06-15''"
  by (simp add: field_defs string_defs parse_defs date_defs)

lemma Birthday_month_first: "Birthday pad ''06-15-1990'' = Inr ''1990-06-15''"
  by (simp add: field_defs string_defs parse_defs date_defs)

lemma Birthday_ambiguous: "Birthday pad ''05-06-1990'' = Inr ''1990-06-05''"
  by (simp add: field_defs string_defs parse_defs date_defs)

lemma Birthday_unpadded: "Birthday pad ''1990-6-5'' = Inr ''1990-06-05''"
  by (simp add: field_defs string_defs parse_defs date_defs)

lemma Birthday_day_first_dots: "Birthday pad ''15.06.1990'' = Inr ''1990-06-15''"
  by (simp add: field_defs string_defs parse_defs date_defs)

lemma Birthday_invalid: "Birthday pad ''invalid-date'' = Inl UnableToParse"
  by (simp add: field_defs string_defs parse_defs date_defs)

lemma Birthday_year_5: "Birthday False ''0005-06-15'' = Inl InvalidBirthday"
  by (simp add: field_defs string_defs parse_defs date_defs)

lemma display_1990: "display_format pad ''1990-06-15'' = ''15.06.1990''"
  by (simp add: field_defs string_defs parse_defs date_defs)


lemma Birthday_Inl: "Birthday pad b = Inl e \<Longrightarrow> e = UnableToParse \<or> e = InvalidBirthday"
  by (auto simp: Birthday_def standardize_date_format_def Let_def
      split: sum.splits option.splits dest: try_formats_Inl)

lemma Birthday_stored:
  assumes "Birthday pad s = Inr v"
  obtains y1 y2 y3 y4 m1 m2 d1 d2 where "v = [y1, y2, y3, y4] @ ''-'' @ [m1, m2] @ ''-'' @ [d1, d2]"
    and "list_all is_ascii_digit [y1, y2, y3, y4, m1, m2, d1, d2]"
    and "display_format pad v = [d1, d2] @ ''.'' @ [m1, m2] @ ''.'' @ [y1, y2, y3, y4]"
proof -
  from assms obtain d where c: "check_date_fields (year d) (month d) (day d)"
    and v: "v = strftime_Ymd pad d" and l: "length (year_str pad (year d)) = 4"
    by (rule Birthday_Inr)
  have y: "year d < 10000" using c by (rule check_date_fieldsD)
  let ?Y = "[digit_char (year d div 1000), digit_char (year d div 100 mod 10),
             digit_char (year d div 10 mod 10), digit_char (year d mod 10)]"
  let ?M = "[digit_char (month d div 10), digit_char (month d mod 10)]"
  let ?D = "[digit_char (day d div 10), digit_char (day d mod 10)]"
  have ys: "year_str pad (year d) = ?Y" using y l by (rule year_str_4)
  have 1: "v = ?Y @ ''-'' @ ?M @ ''-'' @ ?D"
    unfolding v strftime_Ymd_parts [OF c] ys by simp
  have "year d div 1000 < 10" using y by simp
  then have 2: "list_all is_ascii_digit (?Y @ ?M @ ?D)"
    using check_date_fieldsD(7,8) [OF c] by (simp add: is_ascii_digit_digit_char)
  have "strptime v Ymd = make_date (year d) (month d) (day d)"
    unfolding v strptime_strftime [OF c] using l by simp
  then have "display_format pad v
      = strftime_dmY pad \<lparr>year = year d, month = month d, day = day d, hour = 0, minute = 0,
                           second = 0, microsecond = 0\<rparr>"
    using c by (simp add: display_format_def make_date_def)
  also have "\<dots> = ?D @ ''.'' @ ?M @ ''.'' @ ?Y"
    using c ys by (subst strftime_dmY_parts) simp_all
  finally show ?thesis using 1 2 that by simp
qed

section \<open>The loop over the book, and the clock\<close>

lemma upcoming_loop_map_filter:
  "upcoming_loop pad today items acc = acc @ List.map_filter (upcoming_entry pad today) items"
  by (induction items arbitrary: acc) (auto simp: map_filter_simps split: option.splits)

lemma get_upcoming_birthdays_map_filter:
  "get_upcoming_birthdays pad today book = List.map_filter (upcoming_entry pad today) book"
  by (simp add: get_upcoming_birthdays_def upcoming_loop_map_filter)

lemma map_filter_append:
  "List.map_filter f (xs @ ys) = List.map_filter f xs @ List.map_filter f ys"
  by (simp add: List.map_filter_def)

lemma time_of_day_0_iff:
  "time_of_day t = 0 \<longleftrightarrow> hour t = 0 \<and> minute t = 0 \<and> second t = 0 \<and> microsecond t = 0"
  by (simp add: time_of_day_def)

lemma time_of_day_less: "check_time_fields t \<Longrightarrow> time_of_day t < 86400000000"
  by (simp add: check_time_fields_def time_of_day_def)

lemma dt_less_midnight:
  assumes "time_of_day a = 0"
  shows "dt_less a b \<longleftrightarrow>
           year a < year b \<or> year a = year b \<and>
             (month a < month b \<or> month a = month b \<and>
               (day a < day b \<or> day a = day b \<and> time_of_day b \<noteq> 0))"
  using assms by (auto simp: dt_less_def time_of_day_0_iff)

lemma replace_year_time: "replace_year a y = Some b \<Longrightarrow> time_of_day b = time_of_day a"
  by (auto simp: replace_year_def time_of_day_def split: if_splits)

lemma replace_day_time: "replace_day a d = Some b \<Longrightarrow> time_of_day b = time_of_day a"
  by (auto simp: replace_day_def time_of_day_def split: if_splits)

lemma strptime_midnight: "strptime s fmt = Some d \<Longrightarrow> time_of_day d = 0"
  by (simp add: time_of_day_0_iff strptime_valid)

lemma occurrence_midnight:
  assumes "occurrence today v = Some nb"
  shows "time_of_day nb = 0"
  using assms
  by (auto simp: occurrence_def split: option.splits if_splits
      dest!: strptime_midnight replace_year_time)

lemma weekend_adjust_time: "weekend_adjust a = Some b \<Longrightarrow> time_of_day b = time_of_day a"
  by (auto simp: weekend_adjust_def Let_def split: if_splits dest: replace_day_time)

lemma next_birthday_of_midnight:
  assumes "next_birthday_of today v = Some nb"
  shows "time_of_day nb = 0"
proof -
  from assms obtain x where "occurrence today v = Some x" and "weekend_adjust x = Some nb"
    by (auto simp: next_birthday_of_def split: option.splits)
  then show ?thesis
    using occurrence_midnight [of today v x] weekend_adjust_time [of x nb] by simp
qed

lemma floor_days:
  fixes k :: int
  assumes "0 < x" and "x < 86400000000"
  shows "(k * 86400000000 - x) div 86400000000 = k - 1"
proof -
  have "k * 86400000000 - x = (86400000000 - x) + (k - 1) * 86400000000" by simp
  also have "\<dots> div 86400000000 = (k - 1) + (86400000000 - x) div 86400000000"
    by (rule div_mult_self1) simp
  also have "(86400000000 - x) div 86400000000 = 0" using assms by simp
  finally show ?thesis by simp
qed

lemma sub_days_midnight:
  assumes "time_of_day a = 0" and "check_time_fields b"
  shows "sub_days a b =
           int (toordinal a) - int (toordinal b) - (if time_of_day b = 0 then 0 else 1)"
proof (cases "time_of_day b = 0")
  case True
  then show ?thesis using assms by (simp add: sub_days_def)
next
  case False
  then have "0 < int (time_of_day b)" and "int (time_of_day b) < 86400000000"
    using time_of_day_less [OF assms(2)] by simp_all
  then show ?thesis
    using False assms(1) floor_days [of "int (time_of_day b)" "int (toordinal a) - int (toordinal b)"]
    by (simp add: sub_days_def)
qed

lemma occurrence_clock:
  assumes "year t1 = year t2" and "month t1 = month t2" and "day t1 = day t2"
    and "(time_of_day t1 = 0) = (time_of_day t2 = 0)"
  shows "occurrence t1 v = occurrence t2 v"
proof (cases "strptime v Ymd")
  case None
  then show ?thesis by (simp add: occurrence_def)
next
  case (Some parsed)
  show ?thesis
  proof (cases "replace_year parsed (year t2)")
    case None
    then show ?thesis using Some assms by (simp add: occurrence_def)
  next
    case (Some nb)
    have "time_of_day nb = 0"
      using replace_year_time [OF Some] strptime_midnight [OF \<open>strptime v Ymd = Some parsed\<close>]
      by simp
    then have "dt_less nb t1 = dt_less nb t2"
      using assms by (simp add: dt_less_midnight)
    then show ?thesis
      using Some \<open>strptime v Ymd = Some parsed\<close> assms by (simp add: occurrence_def)
  qed
qed

lemma upcoming_entry_clock:
  assumes "year t1 = year t2" and "month t1 = month t2" and "day t1 = day t2"
    and "check_time_fields t1" and "check_time_fields t2"
    and "(time_of_day t1 = 0) = (time_of_day t2 = 0)"
  shows "upcoming_entry pad t1 item = upcoming_entry pad t2 item"
proof -
  have o: "next_birthday_of t1 v = next_birthday_of t2 v" for v
    using occurrence_clock [OF assms(1,2,3,6)] by (simp add: next_birthday_of_def)
  have t: "toordinal t1 = toordinal t2" using assms by (simp add: toordinal_def)
  have "sub_days nb t1 = sub_days nb t2" if "next_birthday_of t2 v = Some nb" for v nb
    using next_birthday_of_midnight [OF that] assms t by (simp add: sub_days_midnight)
  then show ?thesis
    by (auto simp: upcoming_entry_def o Let_def split: option.splits)
qed

section \<open>The claims\<close>

subsection \<open>C1: the weekend shift\<close>

text \<open>
  C1 says that every occurrence on a Saturday or Sunday is moved to the following Monday
  and that the contact is returned with the days until that Monday. On the 27th of March
  2024, at 09:00, the birthday \<open>1985-03-31\<close> next occurs on Sunday the 31st of March
  2024. The following Monday is the 1st of April, four whole days ahead, inside the window.
  The code replaces the day by 31 + 1 in March, \<open>replace\<close> raises, and the contact is
  not returned.
\<close>

theorem weekend_shift_month_end:
  "occurrence
     \<lparr>year = 2024, month = 3, day = 27, hour = 9, minute = 0, second = 0, microsecond = 0\<rparr>
     ''1985-03-31''
     = Some \<lparr>year = 2024, month = 3, day = 31, hour = 0, minute = 0, second = 0,
             microsecond = 0\<rparr>
   \<and> weekday \<lparr>year = 2024, month = 3, day = 31, hour = 0, minute = 0, second = 0,
               microsecond = 0\<rparr> = 6
   \<and> weekday \<lparr>year = 2024, month = 4, day = 1, hour = 0, minute = 0, second = 0,
               microsecond = 0\<rparr> = 0
   \<and> sub_days \<lparr>year = 2024, month = 4, day = 1, hour = 0, minute = 0, second = 0,
                microsecond = 0\<rparr>
         \<lparr>year = 2024, month = 3, day = 27, hour = 9, minute = 0, second = 0,
          microsecond = 0\<rparr> = 4
   \<and> get_upcoming_birthdays pad
     \<lparr>year = 2024, month = 3, day = 27, hour = 9, minute = 0, second = 0, microsecond = 0\<rparr>
     [(''Ann'', \<lparr>name = ''Ann'', phones = [], birthday = Some ''1985-03-31''\<rparr>)] = []"
  by (simp add: book_defs field_defs string_defs parse_defs date_defs)

subsection \<open>C2: what \<open>Phone\<close> accepts\<close>

text \<open>
  C2, as amended. For every string \<open>s\<close>, over any code points, \<open>Phone\<close> succeeds with the
  trimmed \<open>s\<close> as its stored value if and only if the trimmed string has length exactly
  10 and every character of it is one that \<open>str.isdigit\<close> accepts; for every other string
  it fails with \<open>InvalidPhone\<close>. On the code points U+0000 to U+00FF the characters that
  \<open>str.isdigit\<close> accepts are the ASCII digits and the superscript digits U+00B2, U+00B3
  and U+00B9.
\<close>

theorem Phone_accepts_isdigit:
  "Phone_of isspace_c isdigit_c s =
     (let t = rev (dropWhile isspace_c (rev (dropWhile isspace_c s)))
      in if length t = 10 \<and> (\<forall>c\<in>set t. isdigit_c c) then Inr t else Inl InvalidPhone)
   \<and> Phone s' = Phone_of isspace_char isdigit_char s'
   \<and> Phone s' =
       (if length (strip s') = 10
           \<and> (\<forall>c\<in>set (strip s').
                 is_ascii_digit c \<or> c = CHR 0xB2 \<or> c = CHR 0xB3 \<or> c = CHR 0xB9)
        then Inr (strip s') else Inl InvalidPhone)"
proof (intro conjI)
  define t where "t = rev (dropWhile isspace_c (rev (dropWhile isspace_c s)))"
  have "Phone_of isspace_c isdigit_c s =
          (if \<not> ((t \<noteq> [] \<and> list_all isdigit_c t) \<and> length t = 10) then Inl InvalidPhone
           else Inr t)"
    by (simp add: Phone_of_def t_def Let_def)
  also have "\<dots> = (if length t = 10 \<and> (\<forall>c\<in>set t. isdigit_c c) then Inr t
                    else Inl InvalidPhone)"
    by (cases "length t = 10") (auto simp: list_all_iff)
  finally show "Phone_of isspace_c isdigit_c s =
     (let t = rev (dropWhile isspace_c (rev (dropWhile isspace_c s)))
      in if length t = 10 \<and> (\<forall>c\<in>set t. isdigit_c c) then Inr t else Inl InvalidPhone)"
    by (simp add: t_def Let_def)
next
  show "Phone s' = Phone_of isspace_char isdigit_char s'"
    by (simp add: Phone_def Phone_of_def isdigit_def strip_def strip_with_def)
next
  show "Phone s' =
       (if length (strip s') = 10
           \<and> (\<forall>c\<in>set (strip s').
                 is_ascii_digit c \<or> c = CHR 0xB2 \<or> c = CHR 0xB3 \<or> c = CHR 0xB9)
        then Inr (strip s') else Inl InvalidPhone)"
    by (auto simp: Phone_def isdigit_def isdigit_char_def list_all_iff Let_def)
qed

theorem Phone_accepts_isdigit_witness:
  "Phone ''  1234567890 '' = Inr ''1234567890''
   \<and> Phone ''12345abcde'' = Inl InvalidPhone
   \<and> Phone_of (\<lambda>c. c = 32) (\<lambda>c. (48 \<le> c \<and> c \<le> 57) \<or> (1632 \<le> c \<and> c \<le> 1641))
        [32, 1633, 1634, 1635, 1636, 1637, 1638, 1639, 1640, 1641, 1632, 32 :: nat]
      = Inr [1633, 1634, 1635, 1636, 1637, 1638, 1639, 1640, 1641, 1632]"
proof (intro conjI)
  show "Phone ''  1234567890 '' = Inr ''1234567890''"
    by (subst Phone_accepts_isdigit [THEN conjunct2, THEN conjunct2]) (simp add: string_defs)
next
  show "Phone ''12345abcde'' = Inl InvalidPhone"
    by (subst Phone_accepts_isdigit [THEN conjunct2, THEN conjunct2]) (simp add: string_defs)
next
  show "Phone_of (\<lambda>c. c = 32) (\<lambda>c. (48 \<le> c \<and> c \<le> 57) \<or> (1632 \<le> c \<and> c \<le> 1641))
        [32, 1633, 1634, 1635, 1636, 1637, 1638, 1639, 1640, 1641, 1632, 32 :: nat]
      = Inr [1633, 1634, 1635, 1636, 1637, 1638, 1639, 1640, 1641, 1632]"
    by (subst Phone_accepts_isdigit [THEN conjunct1]) (simp add: Let_def)
qed

text \<open>
  The claim as stated, with ASCII digits only, fails on the string of ten U+00B2: the
  constructor accepts it, and none of its characters is an ASCII digit.
\<close>

theorem Phone_superscript_counterexample:
  "Phone [CHR 0xB2, CHR 0xB2, CHR 0xB2, CHR 0xB2, CHR 0xB2, CHR 0xB2, CHR 0xB2, CHR 0xB2,
          CHR 0xB2, CHR 0xB2]
     = Inr [CHR 0xB2, CHR 0xB2, CHR 0xB2, CHR 0xB2, CHR 0xB2, CHR 0xB2, CHR 0xB2, CHR 0xB2,
            CHR 0xB2, CHR 0xB2]
   \<and> \<not> list_all is_ascii_digit
         (strip [CHR 0xB2, CHR 0xB2, CHR 0xB2, CHR 0xB2, CHR 0xB2, CHR 0xB2, CHR 0xB2,
                 CHR 0xB2, CHR 0xB2, CHR 0xB2])"
  by (simp add: Phone_def string_defs)

subsection \<open>C3: \<open>edit_phone\<close>\<close>

text \<open>
  C3 says that after every successful \<open>edit_phone\<close> each stored phone is ten digits.
  On the record with the phones \<open>1234567890\<close> and \<open>5555555555\<close>,
  \<open>edit_phone("1234567890", "abc")\<close> succeeds and stores \<open>abc\<close>, a value that
  \<open>add_phone\<close> rejects. An old value that is not stored raises the error of a phone
  not found and leaves the record as it was.
\<close>
theorem edit_phone_stores_unvalidated:
  "edit_phone ''1234567890'' ''abc''
     \<lparr>name = ''John'', phones = [''1234567890'', ''5555555555''], birthday = None\<rparr>
     = (Inr (), \<lparr>name = ''John'', phones = [''abc'', ''5555555555''], birthday = None\<rparr>)
   \<and> add_phone ''abc''
       \<lparr>name = ''John'', phones = [''1234567890'', ''5555555555''], birthday = None\<rparr>
     = (Inl InvalidPhone,
        \<lparr>name = ''John'', phones = [''1234567890'', ''5555555555''], birthday = None\<rparr>)
   \<and> edit_phone ''0000000000'' ''1112223333''
       \<lparr>name = ''John'', phones = [''1234567890'', ''5555555555''], birthday = None\<rparr>
     = (Inl (PhoneNotFound ''0000000000''),
        \<lparr>name = ''John'', phones = [''1234567890'', ''5555555555''], birthday = None\<rparr>)"
  by (simp add: edit_phone_def find_phone_def add_phone_def Phone_def string_defs)

subsection \<open>C4: the reference time\<close>

text \<open>
  C4, as amended. \<open>get_upcoming_birthdays\<close> takes no reference date: it reads the system
  clock, and its result is a function of the book and of that reading. Two calls on equal
  books return equal results when the two readings show the same date and are both at
  midnight or both later than midnight, in particular when the readings are equal.
\<close>

theorem get_upcoming_birthdays_clock:
  assumes "year t1 = year t2" and "month t1 = month t2" and "day t1 = day t2"
    and "check_time_fields t1" and "check_time_fields t2"
    and "(time_of_day t1 = 0) = (time_of_day t2 = 0)"
  shows "get_upcoming_birthdays pad t1 book = get_upcoming_birthdays pad t2 book"
  using upcoming_entry_clock [OF assms]
  by (simp add: get_upcoming_birthdays_map_filter List.map_filter_def cong: map_cong filter_cong)

theorem get_upcoming_birthdays_clock_witness:
  "get_upcoming_birthdays True
     \<lparr>year = 2024, month = 6, day = 10, hour = 10, minute = 0, second = 0, microsecond = 0\<rparr>
     [(''Bob'', \<lparr>name = ''Bob'', phones = [], birthday = Some ''2000-06-12''\<rparr>)]
   = get_upcoming_birthdays True
     \<lparr>year = 2024, month = 6, day = 10, hour = 18, minute = 45, second = 30, microsecond = 7\<rparr>
     [(''Bob'', \<lparr>name = ''Bob'', phones = [], birthday = Some ''2000-06-12''\<rparr>)]"
  by (rule get_upcoming_birthdays_clock) (simp_all add: check_time_fields_def time_of_day_def)

text \<open>
  The claim as stated, a function of the book and of a date that the caller passes, fails:
  on the same book and the same date, the 10th of June 2024, the call at midnight and the
  call at 10:00 return different results.
\<close>

theorem get_upcoming_birthdays_clock_counterexample:
  "get_upcoming_birthdays True
     \<lparr>year = 2024, month = 6, day = 10, hour = 0, minute = 0, second = 0, microsecond = 0\<rparr>
     [(''Bob'', \<lparr>name = ''Bob'', phones = [], birthday = Some ''2000-06-12''\<rparr>)]
   \<noteq> get_upcoming_birthdays True
     \<lparr>year = 2024, month = 6, day = 10, hour = 10, minute = 0, second = 0, microsecond = 0\<rparr>
     [(''Bob'', \<lparr>name = ''Bob'', phones = [], birthday = Some ''2000-06-12''\<rparr>)]"
  by (simp add: book_defs field_defs string_defs parse_defs date_defs)

subsection \<open>C5: the days until the birthday\<close>

text \<open>
  C5 says that a contact whose birthday is today, a weekday, is returned with 0 days, and
  that the days are counted from the date of today. On Monday the 10th of June 2024, at
  10:00, the contact born on \<open>2000-06-10\<close> is not returned: midnight of the birthday is
  before the clock reading, and the code moves the birthday to 2025. The contact born on
  \<open>2000-06-12\<close> is returned with 1 day, not 2.
\<close>

theorem birthday_today_skipped:
  "get_upcoming_birthdays pad
     \<lparr>year = 2024, month = 6, day = 10, hour = 10, minute = 0, second = 0, microsecond = 0\<rparr>
     [(''Ann'', \<lparr>name = ''Ann'', phones = [], birthday = Some ''2000-06-10''\<rparr>)] = []
   \<and> weekday \<lparr>year = 2024, month = 6, day = 10, hour = 10, minute = 0, second = 0,
               microsecond = 0\<rparr> = 0
   \<and> get_upcoming_birthdays pad
     \<lparr>year = 2024, month = 6, day = 10, hour = 10, minute = 0, second = 0, microsecond = 0\<rparr>
     [(''Bob'', \<lparr>name = ''Bob'', phones = [], birthday = Some ''2000-06-12''\<rparr>)]
     = [\<lparr>entry_name = ''Bob'', entry_birthday = ''12.06.2000'', days_until = 1\<rparr>]"
  by (simp add: book_defs field_defs string_defs parse_defs date_defs)

subsection \<open>C6: the order of the formats\<close>

text \<open>
  C6. \<open>_standardize_date_format\<close> replaces the delimiters and then tries
  \<open>%Y-%m-%d\<close>, \<open>%d-%m-%Y\<close>, \<open>%m-%d-%Y\<close> in this order, the first format that reads
  a valid date giving the result. Each of \<open>1990-06-15\<close>, \<open>1990.06.15\<close>,
  \<open>15-06-1990\<close> and \<open>06-15-1990\<close> is stored as \<open>1990-06-15\<close>. The text
  \<open>05-06-1990\<close>, which reads as a date both day first and month first, is stored as the
  5th of June.
\<close>
theorem Birthday_format_order:
  "standardize_date_format pad s =
     (let t = strip_with (\<lambda>c. c = CHR ''-'') (sub_delimiters s)
      in case strptime t Ymd of
           Some d \<Rightarrow> Inr (strftime_Ymd pad d)
         | None \<Rightarrow>
             (case strptime t dmY of
                Some d \<Rightarrow> Inr (strftime_Ymd pad d)
              | None \<Rightarrow>
                  (case strptime t mdY of
                     Some d \<Rightarrow> Inr (strftime_Ymd pad d)
                   | None \<Rightarrow> Inl UnableToParse)))
   \<and> Birthday pad ''1990-06-15'' = Inr ''1990-06-15''
   \<and> Birthday pad ''1990.06.15'' = Inr ''1990-06-15''
   \<and> Birthday pad ''15-06-1990'' = Inr ''1990-06-15''
   \<and> Birthday pad ''06-15-1990'' = Inr ''1990-06-15''
   \<and> strptime ''05-06-1990'' dmY = make_date 1990 6 5
   \<and> strptime ''05-06-1990'' mdY = make_date 1990 5 6
   \<and> Birthday pad ''05-06-1990'' = Inr ''1990-06-05''"
proof -
  have "strptime ''05-06-1990'' dmY = make_date 1990 6 5"
    and "strptime ''05-06-1990'' mdY = make_date 1990 5 6"
    by (simp_all add: string_defs parse_defs date_defs)
  moreover have "standardize_date_format pad s =
     (let t = strip_with (\<lambda>c. c = CHR ''-'') (sub_delimiters s)
      in case strptime t Ymd of
           Some d \<Rightarrow> Inr (strftime_Ymd pad d)
         | None \<Rightarrow>
             (case strptime t dmY of
                Some d \<Rightarrow> Inr (strftime_Ymd pad d)
              | None \<Rightarrow>
                  (case strptime t mdY of
                     Some d \<Rightarrow> Inr (strftime_Ymd pad d)
                   | None \<Rightarrow> Inl UnableToParse)))"
    by (simp add: standardize_date_format_def formats_to_try_def Let_def split: option.splits)
  ultimately show ?thesis
    using Birthday_1990_06_15 [of pad] Birthday_dots [of pad] Birthday_day_first [of pad]
      Birthday_month_first [of pad] Birthday_ambiguous [of pad]
    by blast
qed

subsection \<open>C7: \<open>display_format\<close>\<close>

text \<open>
  C7. For every birthday that \<open>Birthday\<close> constructs, \<open>display_format\<close> renders the
  stored \<open>YYYY-MM-DD\<close> value as \<open>DD.MM.YYYY\<close>: its last two characters, a dot,
  its two month characters, a dot, its first four characters. In particular the birthday
  constructed from \<open>1990-06-15\<close> is displayed as \<open>15.06.1990\<close>.
\<close>
theorem display_format_of_Birthday:
  "(Birthday pad s = Inr v \<longrightarrow>
      display_format pad v = drop 8 v @ ''.'' @ take 2 (drop 5 v) @ ''.'' @ take 4 v)
   \<and> Birthday pad ''1990-06-15'' = Inr ''1990-06-15''
   \<and> display_format pad ''1990-06-15'' = ''15.06.1990''"
proof -
  have "display_format pad v = drop 8 v @ ''.'' @ take 2 (drop 5 v) @ ''.'' @ take 4 v"
    if "Birthday pad s = Inr v"
    using that by (rule Birthday_stored) simp
  then show ?thesis by (simp add: Birthday_1990_06_15 display_1990)
qed

theorem display_format_of_Birthday_witness:
  "Birthday True ''15.06.1990'' = Inr ''1990-06-15''
   \<and> display_format True ''1990-06-15'' = ''15.06.1990''"
  using display_format_of_Birthday [of True "''15.06.1990''" "''1990-06-15''"]
  by (simp add: Birthday_day_first_dots)

subsection \<open>C8: \<open>add_birthday\<close> on a failure\<close>

text \<open>
  C8. For every record and every string for which \<open>Birthday\<close> fails, \<open>add_birthday\<close>
  raises that error, one of the two \<open>ValueError\<close>s of the birthday, and leaves the
  record, its birthday and every other field, as it was.
\<close>
theorem add_birthday_atomic:
  "Birthday pad b = Inl e \<Longrightarrow>
     add_birthday pad b r = (Inl e, r) \<and> (e = UnableToParse \<or> e = InvalidBirthday)"
  by (simp add: add_birthday_def Birthday_Inl)

theorem add_birthday_atomic_witness:
  "Birthday True ''invalid-date'' = Inl UnableToParse
   \<and> add_birthday True ''invalid-date''
         \<lparr>name = ''John'', phones = [''1234567890''], birthday = Some ''1990-06-15''\<rparr>
       = (Inl UnableToParse,
          \<lparr>name = ''John'', phones = [''1234567890''], birthday = Some ''1990-06-15''\<rparr>)
   \<and> Birthday False ''0005-06-15'' = Inl InvalidBirthday
   \<and> add_birthday False ''0005-06-15''
         \<lparr>name = ''John'', phones = [''1234567890''], birthday = Some ''1990-06-15''\<rparr>
       = (Inl InvalidBirthday,
          \<lparr>name = ''John'', phones = [''1234567890''], birthday = Some ''1990-06-15''\<rparr>)"
  using add_birthday_atomic [OF Birthday_invalid [of True]]
    add_birthday_atomic [OF Birthday_year_5]
  by (simp add: Birthday_invalid Birthday_year_5)

subsection \<open>C9: a weekend shift past the end of the month\<close>

text \<open>
  C9. When the occurrence of a record's birthday falls on a Saturday or Sunday and its
  day of the month plus the days to add exceeds the days of that month,
  \<open>get_upcoming_birthdays\<close> returns, without an error and without an entry for that
  record: the result is the one of the records before it followed by the one of the
  records after it.
\<close>

theorem weekend_overflow_omitted:
  assumes "birthday r = Some v"
    and "occurrence today v = Some next_birthday"
    and "weekday next_birthday = 5 \<or> weekday next_birthday = 6"
    and "days_in_month (year next_birthday) (month next_birthday)
           < day next_birthday + (7 - weekday next_birthday)"
  shows "get_upcoming_birthdays pad today (before @ (n, r) # after)
           = get_upcoming_birthdays pad today before @ get_upcoming_birthdays pad today after"
proof -
  have "weekend_adjust next_birthday = None"
    using assms(3,4) by (auto simp: weekend_adjust_def replace_day_def check_date_fields_def)
  then have "upcoming_entry pad today (n, r) = None"
    using assms(1,2) by (simp add: upcoming_entry_def next_birthday_of_def)
  then show ?thesis
    by (simp add: get_upcoming_birthdays_map_filter map_filter_append map_filter_simps)
qed

theorem weekend_overflow_omitted_witness:
  "get_upcoming_birthdays False
     \<lparr>year = 2024, month = 11, day = 25, hour = 10, minute = 30, second = 0, microsecond = 0\<rparr>
     ([(''Bob'', \<lparr>name = ''Bob'', phones = [], birthday = Some ''2000-11-27''\<rparr>)]
      @ (''Eve'', \<lparr>name = ''Eve'', phones = [], birthday = Some ''1990-11-30''\<rparr>) # [])
   = [\<lparr>entry_name = ''Bob'', entry_birthday = ''27.11.2000'', days_until = 1\<rparr>]"
proof -
  let ?today = "\<lparr>year = 2024, month = 11, day = 25, hour = 10, minute = 30, second = 0,
                  microsecond = 0\<rparr>"
  let ?next = "\<lparr>year = 2024, month = 11, day = 30, hour = 0, minute = 0, second = 0,
                 microsecond = 0\<rparr>"
  let ?r = "\<lparr>name = ''Eve'', phones = [], birthday = Some ''1990-11-30''\<rparr>"
  have 1: "birthday ?r = Some ''1990-11-30''" by simp
  have 2: "occurrence ?today ''1990-11-30'' = Some ?next"
    by (simp add: occurrence_def string_defs parse_defs date_defs)
  have 3: "weekday ?next = 5 \<or> weekday ?next = 6" by (simp add: date_defs)
  have 4: "days_in_month (year ?next) (month ?next) < day ?next + (7 - weekday ?next)"
    by (simp add: date_defs)
  have 5: "get_upcoming_birthdays False ?today
             [(''Bob'', \<lparr>name = ''Bob'', phones = [], birthday = Some ''2000-11-27''\<rparr>)]
           = [\<lparr>entry_name = ''Bob'', entry_birthday = ''27.11.2000'', days_until = 1\<rparr>]"
    by (simp add: book_defs field_defs string_defs parse_defs date_defs)
  have 6: "get_upcoming_birthdays False ?today [] = []"
    by (simp add: get_upcoming_birthdays_def)
  show ?thesis
    unfolding weekend_overflow_omitted [OF 1 2 3 4, of False _ "''Eve''"] 5 6 by simp
qed

subsection \<open>C10: the stored birthday\<close>

text \<open>
  C10. \<open>Birthday\<close> accepts \<open>1990-6-5\<close>, whose month and day have no leading zero, and
  stores \<open>1990-06-05\<close>; and the value stored by every successful \<open>Birthday\<close> has the
  shape \<open>YYYY-MM-DD\<close>, with four digits, two digits and two digits.
\<close>
theorem Birthday_stores_canonical:
  "(Birthday pad s = Inr v \<longrightarrow> matches_YYYY_MM_DD v)
   \<and> Birthday pad ''1990-6-5'' = Inr ''1990-06-05''"
proof -
  have "matches_YYYY_MM_DD v" if "Birthday pad s = Inr v"
    using that by (rule Birthday_stored) simp
  then show ?thesis by (simp add: Birthday_unpadded)
qed

theorem Birthday_stores_canonical_witness:
  "Birthday False ''1990-6-5'' = Inr ''1990-06-05'' \<and> matches_YYYY_MM_DD ''1990-06-05''"
  using Birthday_stores_canonical [of False "''1990-6-5''" "''1990-06-05''"]
  by (simp add: Birthday_unpadded)

end
